theory Spec2Isabelle
  imports Main "HOL-Library.AList"
begin

section \<open>The data of src/sjw/app.py\<close>

text \<open>
  The bridge of \<^verbatim>\<open>src/sjw/app.py\<close> keeps a mirror of systemd units (class \<^verbatim>\<open>App\<close>)
  and forwards property changes to a WAMP session (class \<^verbatim>\<open>WAMPApplication\<close>).
  Everything the code does to the outside (D-Bus calls, signal subscriptions, WAMP
  publications) is recorded as an event in a trace, in the order the code performs it.

  A D-Bus property value is a variant; the embedding keeps the scalar shapes.
\<close>

datatype dbus_value = DStr string | DInt int | DBool bool | DNone

text \<open>
  A property dictionary (the reply of \<^verbatim>\<open>GetAll\<close>, the \<^verbatim>\<open>changed\<close> argument of a
  \<^verbatim>\<open>PropertiesChanged\<close> signal) is a map: the code only reads it by key and merges
  it with \<^verbatim>\<open>dict.update\<close>, which is \<open>++\<close> on maps.
\<close>

type_synonym props = "string \<rightharpoonup> dbus_value"

text \<open>\<^verbatim>\<open>class Unit(NamedTuple)\<close>, lines 19-24.\<close>

record Unit =
  name :: string
  description :: dbus_value
  active :: dbus_value
  sub :: dbus_value
  enabled :: dbus_value

text \<open>
  The exceptions of the code: \<^verbatim>\<open>KeyError\<close> of a dictionary subscript (the spec's
  \<^verbatim>\<open>UnknownUnitKey\<close>) and a failed bus or router round trip, raised by the awaited
  call (the spec's \<^verbatim>\<open>BusCallFailed\<close>, \<^verbatim>\<open>ServiceUnavailable\<close>, \<^verbatim>\<open>InvalidUnitName\<close>).
\<close>

datatype error = KeyError string | RemoteError string

text \<open>The positional arguments the code passes to \<^verbatim>\<open>callRemote\<close>.\<close>

datatype arg = AStr string | AStrs "string list" | ABool bool

text \<open>
  The events of the outside world. \<open>CallRemote path method args\<close> is
  \<^verbatim>\<open>callRemote(method, *args)\<close> on the remote object at \<open>path\<close>;
  \<open>NotifyOnSignal path signal\<close> is \<^verbatim>\<open>notifyOnSignal(signal, callback)\<close> on the
  remote object at \<open>path\<close>; \<open>Publish topic payload\<close> is \<^verbatim>\<open>session.publish\<close>.
\<close>

datatype event =
    Connect
  | GetRemoteObject string
  | CallRemote string string "arg list"
  | NotifyOnSignal string string
  | Register string
  | WampStart
  | Publish string props

text \<open>
  The bus and the router are collaborators outside the repository. Their answers are a
  parameter of the model: each answer may depend on the whole history of events and on
  the event itself, and is either an exception (\<open>Inl\<close>) or a value. The three fields
  follow the D-Bus signatures of the methods the code calls: \<^verbatim>\<open>LoadUnit\<close> answers an
  object path, \<^verbatim>\<open>GetAll\<close> a property dictionary, every other call a value that the
  code passes on or ignores.
\<close>

record bus =
  reply :: "event list \<Rightarrow> event \<Rightarrow> error + dbus_value"
  reply_path :: "event list \<Rightarrow> event \<Rightarrow> error + string"
  reply_props :: "event list \<Rightarrow> event \<Rightarrow> error + props"

text \<open>
  The state. \<open>units\<close>, \<open>units_name\<close>, \<open>units_path\<close> and \<open>properties\<close> are the
  attributes of \<^verbatim>\<open>App\<close> (lines 89-92); \<open>units_name\<close> and \<open>units_path\<close> are
  iterated by the code, so they keep Python's insertion order as association lists
  (a Python dictionary has no duplicate keys). \<open>wamp_session\<close> is the attribute of
  \<^verbatim>\<open>WAMPApplication\<close> (line 47): \<open>None\<close> is the spec's Detached, a session handle
  is Attached.

  \<open>cells\<close> and \<open>handlers\<close> hold what \<^verbatim>\<open>subscribe_props_units\<close> leaves behind: the
  callbacks registered with \<^verbatim>\<open>notifyOnSignal\<close>. A Python closure refers to the
  variable it closes over, not to the value the variable had when the function object
  was made: every \<^verbatim>\<open>unit_changed\<close> made by one run of the loop shares the cell of the
  loop variable \<^verbatim>\<open>unit_key\<close>. A handler is therefore the object path it was
  registered for together with the index of that cell in \<open>cells\<close>.

  The attributes \<^verbatim>\<open>connection\<close> and \<^verbatim>\<open>systemd_dbus\<close> are set at the start of
  \<^verbatim>\<open>main_loop\<close> and never changed; the remote operations are registered with the
  router only after that (\<^verbatim>\<open>initialize\<close> runs on join), so the operations below are
  taken with both handles established.
\<close>

record App =
  units :: "string \<rightharpoonup> Unit"
  units_name :: "(string \<times> string) list"
  units_path :: "(string \<times> string) list"
  properties :: "string \<rightharpoonup> props"
  wamp_session :: "nat option"
  cells :: "string option list"
  handlers :: "(string \<times> nat) list"
  trace :: "event list"

definition systemd1 :: string where
  "systemd1 = ''/org/freedesktop/systemd1''"

section \<open>Awaited calls\<close>

text \<open>
  Each awaited call appends its event to the trace and yields the collaborator's answer
  for the history so far.
\<close>

definition callRemote :: "bus \<Rightarrow> App \<Rightarrow> string \<Rightarrow> string \<Rightarrow> arg list \<Rightarrow> (error + dbus_value) \<times> App" where
  "callRemote b s path method args =
     (reply b (trace s) (CallRemote path method args),
      s\<lparr>trace := trace s @ [CallRemote path method args]\<rparr>)"

definition callRemote_path :: "bus \<Rightarrow> App \<Rightarrow> string \<Rightarrow> string \<Rightarrow> arg list \<Rightarrow> (error + string) \<times> App" where
  "callRemote_path b s path method args =
     (reply_path b (trace s) (CallRemote path method args),
      s\<lparr>trace := trace s @ [CallRemote path method args]\<rparr>)"

definition callRemote_props :: "bus \<Rightarrow> App \<Rightarrow> string \<Rightarrow> string \<Rightarrow> arg list \<Rightarrow> (error + props) \<times> App" where
  "callRemote_props b s path method args =
     (reply_props b (trace s) (CallRemote path method args),
      s\<lparr>trace := trace s @ [CallRemote path method args]\<rparr>)"

definition getRemoteObject :: "bus \<Rightarrow> App \<Rightarrow> string \<Rightarrow> (error + dbus_value) \<times> App" where
  "getRemoteObject b s path =
     (reply b (trace s) (GetRemoteObject path),
      s\<lparr>trace := trace s @ [GetRemoteObject path]\<rparr>)"

section \<open>WAMPApplication\<close>

text \<open>
  \<^verbatim>\<open>initialize\<close> (lines 55-64) stores the session, then registers the six
  procedures one after the other, each registration awaited (an exception ends the
  handler there, with the session already stored); \<^verbatim>\<open>uninitialize\<close> (lines 66-69)
  clears the session.
\<close>

fun register_all :: "bus \<Rightarrow> string list \<Rightarrow> App \<Rightarrow> (error + unit) \<times> App" where
  "register_all b [] s = (Inr (), s)"
| "register_all b (procedure # rest) s =
     (case reply b (trace s) (Register procedure) of
        Inl e \<Rightarrow> (Inl e, s\<lparr>trace := trace s @ [Register procedure]\<rparr>)
      | Inr r \<Rightarrow> register_all b rest (s\<lparr>trace := trace s @ [Register procedure]\<rparr>))"

definition initialize :: "bus \<Rightarrow> App \<Rightarrow> nat \<Rightarrow> (error + unit) \<times> App" where
  "initialize b s session =
     register_all b
       [''sjw.list_units'', ''sjw.query'', ''sjw.start'', ''sjw.stop'',
        ''sjw.enable'', ''sjw.disable'']
       (s\<lparr>wamp_session := Some session\<rparr>)"

definition uninitialize :: "App \<Rightarrow> App" where
  "uninitialize s = s\<lparr>wamp_session := None\<rparr>"

text \<open>
  \<^verbatim>\<open>on_unit_changed\<close> (lines 71-74): return at once without a session, else publish
  \<^verbatim>\<open>props\<close> on \<^verbatim>\<open>'sjw.unit.' + unit\<close>.
\<close>

definition on_unit_changed :: "App \<Rightarrow> string \<Rightarrow> props \<Rightarrow> App" where
  "on_unit_changed s unit_key props =
     (case wamp_session s of
        None \<Rightarrow> s
      | Some session \<Rightarrow> s\<lparr>trace := trace s @ [Publish (''sjw.unit.'' @ unit_key) props]\<rparr>)"

section \<open>App: population\<close>

text \<open>
  The constructor call of lines 138-142: the four subscripts of \<^verbatim>\<open>props\<close> are
  evaluated in the order written, and the first missing key raises \<^verbatim>\<open>KeyError\<close>.
\<close>

definition getitem :: "props \<Rightarrow> string \<Rightarrow> error + dbus_value" where
  "getitem props k = (case props k of None \<Rightarrow> Inl (KeyError k) | Some v \<Rightarrow> Inr v)"

definition make_Unit :: "string \<Rightarrow> props \<Rightarrow> error + Unit" where
  "make_Unit unit_name props =
     (case getitem props ''Description'' of Inl e \<Rightarrow> Inl e | Inr d \<Rightarrow>
      case getitem props ''ActiveState'' of Inl e \<Rightarrow> Inl e | Inr a \<Rightarrow>
      case getitem props ''SubState'' of Inl e \<Rightarrow> Inl e | Inr sb \<Rightarrow>
      case getitem props ''UnitFileState'' of Inl e \<Rightarrow> Inl e | Inr en \<Rightarrow>
        Inr \<lparr>name = unit_name, description = d, active = a, sub = sb, enabled = en\<rparr>)"

text \<open>
  \<^verbatim>\<open>refresh_units\<close> (lines 127-142). \<open>filter_keys\<close> is \<open>None\<close> for Python's
  \<^verbatim>\<open>None\<close>; \<^verbatim>\<open>not filter_keys\<close> also holds of an empty collection. The assignments
  to \<^verbatim>\<open>units_path\<close> and \<^verbatim>\<open>properties\<close> happen before the later calls of the same
  iteration, so they stay when one of those raises.
\<close>

definition falsy :: "string list option \<Rightarrow> bool" where
  "falsy filter_keys = (case filter_keys of None \<Rightarrow> True | Some ks \<Rightarrow> ks = [])"

definition contains :: "string list option \<Rightarrow> string \<Rightarrow> bool" where
  "contains filter_keys key = (case filter_keys of None \<Rightarrow> False | Some ks \<Rightarrow> key \<in> set ks)"

fun refresh_units_loop :: "bus \<Rightarrow> string list option \<Rightarrow> (string \<times> string) list \<Rightarrow> App \<Rightarrow> (error + unit) \<times> App" where
  "refresh_units_loop b filter_keys [] s = (Inr (), s)"
| "refresh_units_loop b filter_keys ((key, unit_name) # rest) s =
     (if falsy filter_keys \<or> contains filter_keys key then
        (case callRemote_path b s systemd1 ''LoadUnit'' [AStr unit_name] of
           (Inl e, s1) \<Rightarrow> (Inl e, s1)
         | (Inr path, s1) \<Rightarrow>
            (let s2 = s1\<lparr>units_path := AList.update key path (units_path s1)\<rparr> in
             case getRemoteObject b s2 path of
               (Inl e, s3) \<Rightarrow> (Inl e, s3)
             | (Inr unit_dbus, s3) \<Rightarrow>
                (case callRemote_props b s3 path ''GetAll'' [AStr ''''] of
                   (Inl e, s4) \<Rightarrow> (Inl e, s4)
                 | (Inr props, s4) \<Rightarrow>
                    (let s5 = s4\<lparr>properties := (properties s4)(key \<mapsto> props)\<rparr> in
                     case make_Unit unit_name props of
                       Inl e \<Rightarrow> (Inl e, s5)
                     | Inr u \<Rightarrow>
                        refresh_units_loop b filter_keys rest
                          (s5\<lparr>units := (units s5)(key \<mapsto> u)\<rparr>)))))
      else refresh_units_loop b filter_keys rest s)"

definition refresh_units :: "bus \<Rightarrow> App \<Rightarrow> string list option \<Rightarrow> (error + unit) \<times> App" where
  "refresh_units b s filter_keys = refresh_units_loop b filter_keys (units_name s) s"

text \<open>
  \<^verbatim>\<open>refresh_unit_properties\<close> (lines 156-163). The argument is the sequence of keys;
  the empty list stands for every falsy argument (\<^verbatim>\<open>None\<close>, \<^verbatim>\<open>()\<close>, an empty
  dictionary), for which the code takes the keys of \<^verbatim>\<open>units_path\<close>. The subscript
  \<^verbatim>\<open>self.units_path[unit_key]\<close> raises \<^verbatim>\<open>KeyError\<close> on a key that is not there.
\<close>

fun refresh_unit_properties_loop :: "bus \<Rightarrow> string list \<Rightarrow> App \<Rightarrow> (error + unit) \<times> App" where
  "refresh_unit_properties_loop b [] s = (Inr (), s)"
| "refresh_unit_properties_loop b (unit_key # rest) s =
     (case map_of (units_path s) unit_key of
        None \<Rightarrow> (Inl (KeyError unit_key), s)
      | Some path \<Rightarrow>
         (case getRemoteObject b s path of
            (Inl e, s1) \<Rightarrow> (Inl e, s1)
          | (Inr unit_dbus, s1) \<Rightarrow>
             (case callRemote_props b s1 path ''GetAll'' [AStr ''''] of
                (Inl e, s2) \<Rightarrow> (Inl e, s2)
              | (Inr props, s2) \<Rightarrow>
                 refresh_unit_properties_loop b rest
                   (s2\<lparr>properties := (properties s2)(unit_key \<mapsto> props)\<rparr>))))"

definition refresh_unit_properties :: "bus \<Rightarrow> App \<Rightarrow> string list \<Rightarrow> (error + unit) \<times> App" where
  "refresh_unit_properties b s unit_keys =
     refresh_unit_properties_loop b
       (if unit_keys = [] then map fst (units_path s) else unit_keys) s"

section \<open>App: change signals\<close>

text \<open>
  The body of \<^verbatim>\<open>unit_changed\<close> (lines 149-152), for the value \<open>unit_key\<close> that its
  free variable has when the callback runs: \<^verbatim>\<open>setdefault(unit_key, {})\<close> yields the
  stored dictionary, or stores and yields an empty one; \<^verbatim>\<open>update(changed)\<close> merges
  the delta into it; then the notifier is called. \<^verbatim>\<open>invalidated\<close> is not used.
\<close>

definition unit_changed :: "string \<Rightarrow> App \<Rightarrow> string \<Rightarrow> props \<Rightarrow> string list \<Rightarrow> App" where
  "unit_changed unit_key s interface changed invalidated =
     on_unit_changed
       (s\<lparr>properties := (properties s)
            (unit_key \<mapsto> (case properties s unit_key of None \<Rightarrow> Map.empty | Some m \<Rightarrow> m) ++ changed)\<rparr>)
       unit_key changed"

text \<open>
  \<^verbatim>\<open>subscribe_props_units\<close> (lines 144-154). One run has one variable \<^verbatim>\<open>unit_key\<close>:
  its cell is allocated on entry (unbound), the \<^verbatim>\<open>for\<close> statement assigns it at each
  iteration, and each \<^verbatim>\<open>unit_changed\<close> registered by the run refers to it. The result
  of \<^verbatim>\<open>notifyOnSignal\<close> is not awaited, so the call cannot raise into the loop.
\<close>

fun subscribe_props_units_loop :: "bus \<Rightarrow> nat \<Rightarrow> (string \<times> string) list \<Rightarrow> App \<Rightarrow> (error + unit) \<times> App" where
  "subscribe_props_units_loop b c [] s = (Inr (), s)"
| "subscribe_props_units_loop b c ((unit_key, unit_path) # rest) s =
     (let s1 = s\<lparr>cells := (cells s)[c := Some unit_key]\<rparr> in
      case getRemoteObject b s1 unit_path of
        (Inl e, s2) \<Rightarrow> (Inl e, s2)
      | (Inr unit_dbus, s2) \<Rightarrow>
         subscribe_props_units_loop b c rest
           (s2\<lparr>handlers := handlers s2 @ [(unit_path, c)],
               trace := trace s2 @ [NotifyOnSignal unit_path ''PropertiesChanged'']\<rparr>))"

definition subscribe_props_units :: "bus \<Rightarrow> App \<Rightarrow> (error + unit) \<times> App" where
  "subscribe_props_units b s =
     subscribe_props_units_loop b (length (cells s)) (units_path s)
       (s\<lparr>cells := cells s @ [None]\<rparr>)"

text \<open>
  Running a registered callback reads the cell at that moment. Delivering a
  \<^verbatim>\<open>PropertiesChanged\<close> signal of the object at \<open>path\<close> runs every callback
  registered for that object, in the order of registration.
\<close>

definition call_handler :: "App \<Rightarrow> nat \<Rightarrow> string \<Rightarrow> props \<Rightarrow> string list \<Rightarrow> App" where
  "call_handler s c interface changed invalidated =
     (if c < length (cells s) then
        (case cells s ! c of
           None \<Rightarrow> s
         | Some unit_key \<Rightarrow> unit_changed unit_key s interface changed invalidated)
      else s)"

fun deliver :: "(string \<times> nat) list \<Rightarrow> string \<Rightarrow> string \<Rightarrow> props \<Rightarrow> string list \<Rightarrow> App \<Rightarrow> App" where
  "deliver [] path interface changed invalidated s = s"
| "deliver ((p, c) # hs) path interface changed invalidated s =
     deliver hs path interface changed invalidated
       (if p = path then call_handler s c interface changed invalidated else s)"

definition properties_changed :: "App \<Rightarrow> string \<Rightarrow> string \<Rightarrow> props \<Rightarrow> string list \<Rightarrow> App" where
  "properties_changed s path interface changed invalidated =
     deliver (handlers s) path interface changed invalidated s"

section \<open>App: the remote operations\<close>

text \<open>
  \<^verbatim>\<open>query\<close> (lines 178-184): without keys the keys of \<^verbatim>\<open>units_path\<close>; refresh;
  then the dictionary of the requested keys that have stored properties.
\<close>

definition query :: "bus \<Rightarrow> App \<Rightarrow> string list \<Rightarrow> (error + (string \<rightharpoonup> props)) \<times> App" where
  "query b s unit_keys =
     (let ks = (if unit_keys = [] then map fst (units_path s) else unit_keys) in
      case refresh_unit_properties b s ks of
        (Inl e, s1) \<Rightarrow> (Inl e, s1)
      | (Inr u, s1) \<Rightarrow> (Inr (properties s1 |` set ks), s1))"

text \<open>\<^verbatim>\<open>start\<close> and \<^verbatim>\<open>stop\<close> (lines 186-198).\<close>

definition start :: "bus \<Rightarrow> App \<Rightarrow> string \<Rightarrow> (error + dbus_value) \<times> App" where
  "start b s unit_key =
     (case map_of (units_name s) unit_key of
        None \<Rightarrow> (Inl (KeyError unit_key), s)
      | Some unit_name \<Rightarrow>
         callRemote b s systemd1 ''StartUnit'' [AStr unit_name, AStr ''replace''])"

definition stop :: "bus \<Rightarrow> App \<Rightarrow> string \<Rightarrow> (error + dbus_value) \<times> App" where
  "stop b s unit_key =
     (case map_of (units_name s) unit_key of
        None \<Rightarrow> (Inl (KeyError unit_key), s)
      | Some unit_name \<Rightarrow>
         callRemote b s systemd1 ''StopUnit'' [AStr unit_name, AStr ''replace''])"

text \<open>\<^verbatim>\<open>enable\<close> and \<^verbatim>\<open>disable\<close> (lines 200-214).\<close>

definition enable :: "bus \<Rightarrow> App \<Rightarrow> string \<Rightarrow> (error + dbus_value) \<times> App" where
  "enable b s unit_key =
     (case map_of (units_name s) unit_key of
        None \<Rightarrow> (Inl (KeyError unit_key), s)
      | Some unit_name \<Rightarrow>
         (case callRemote b s systemd1 ''EnableUnitFiles''
                 [AStrs [unit_name], ABool False, ABool True] of
            (Inl e, s1) \<Rightarrow> (Inl e, s1)
          | (Inr result, s1) \<Rightarrow>
             (case callRemote b s1 systemd1 ''Reload'' [] of
                (Inl e, s2) \<Rightarrow> (Inl e, s2)
              | (Inr r, s2) \<Rightarrow> (Inr result, s2))))"

definition disable :: "bus \<Rightarrow> App \<Rightarrow> string \<Rightarrow> (error + dbus_value) \<times> App" where
  "disable b s unit_key =
     (case map_of (units_name s) unit_key of
        None \<Rightarrow> (Inl (KeyError unit_key), s)
      | Some unit_name \<Rightarrow>
         (case callRemote b s systemd1 ''DisableUnitFiles''
                 [AStrs [unit_name], ABool False] of
            (Inl e, s1) \<Rightarrow> (Inl e, s1)
          | (Inr result, s1) \<Rightarrow>
             (case callRemote b s1 systemd1 ''Reload'' [] of
                (Inl e, s2) \<Rightarrow> (Inl e, s2)
              | (Inr r, s2) \<Rightarrow> (Inr result, s2))))"

section \<open>App: startup\<close>

text \<open>
  \<^verbatim>\<open>main_loop\<close> (lines 111-125): connect, get the manager object, \<^verbatim>\<open>Subscribe\<close>,
  populate, refresh the properties, subscribe to the units' signals, start the WAMP
  component. Every step is awaited; an exception ends the run there.
\<close>

definition connect :: "bus \<Rightarrow> App \<Rightarrow> (error + dbus_value) \<times> App" where
  "connect b s = (reply b (trace s) Connect, s\<lparr>trace := trace s @ [Connect]\<rparr>)"

definition wamp_start :: "bus \<Rightarrow> App \<Rightarrow> (error + dbus_value) \<times> App" where
  "wamp_start b s = (reply b (trace s) WampStart, s\<lparr>trace := trace s @ [WampStart]\<rparr>)"

definition main_loop :: "bus \<Rightarrow> App \<Rightarrow> (error + unit) \<times> App" where
  "main_loop b s =
     (case connect b s of
        (Inl e, s1) \<Rightarrow> (Inl e, s1)
      | (Inr connection, s1) \<Rightarrow>
     (case getRemoteObject b s1 systemd1 of
        (Inl e, s2) \<Rightarrow> (Inl e, s2)
      | (Inr systemd_dbus, s2) \<Rightarrow>
     (case callRemote b s2 systemd1 ''Subscribe'' [] of
        (Inl e, s3) \<Rightarrow> (Inl e, s3)
      | (Inr r, s3) \<Rightarrow>
     (case refresh_units b s3 None of
        (Inl e, s4) \<Rightarrow> (Inl e, s4)
      | (Inr r, s4) \<Rightarrow>
     (case refresh_unit_properties b s4 [] of
        (Inl e, s5) \<Rightarrow> (Inl e, s5)
      | (Inr r, s5) \<Rightarrow>
     (case subscribe_props_units b s5 of
        (Inl e, s6) \<Rightarrow> (Inl e, s6)
      | (Inr r, s6) \<Rightarrow>
     (case wamp_start b s6 of
        (Inl e, s7) \<Rightarrow> (Inl e, s7)
      | (Inr result, s7) \<Rightarrow> (Inr (), s7))))))))"

section \<open>The phases of startup\<close>

text \<open>
  To state the order of the startup sequence, the events it is about are numbered:
  1 for the \<^verbatim>\<open>Subscribe\<close> call, 2 for the calls of population (\<^verbatim>\<open>LoadUnit\<close>,
  \<^verbatim>\<open>GetAll\<close>), 3 for the registration of a unit's change callback, 4 for the start of
  the WAMP component. Getting a remote object happens in several steps and has no
  number. \<open>phases\<close> is the sequence of the numbers of a trace.
\<close>

fun phase :: "event \<Rightarrow> nat option" where
  "phase (CallRemote p m args) =
     (if m = ''Subscribe'' then Some 1
      else if m = ''LoadUnit'' \<or> m = ''GetAll'' then Some 2 else None)"
| "phase (NotifyOnSignal p sg) = Some 3"
| "phase WampStart = Some 4"
| "phase e = None"

definition phases :: "event list \<Rightarrow> nat list" where
  "phases ev = List.map_filter phase ev"

section \<open>Example inputs\<close>

text \<open>
  A configuration with two units, \<^verbatim>\<open>web\<close> and \<^verbatim>\<open>db\<close>; a bus that answers every
  \<^verbatim>\<open>LoadUnit\<close> with a path made from the unit name and every \<^verbatim>\<open>GetAll\<close> with the
  same four properties; \<open>app0\<close> is the state the constructor leaves, \<open>app1\<close> a state
  after population with a session attached.
\<close>

definition props0 :: props where
  "props0 = [''Description'' \<mapsto> DStr ''A web server'', ''ActiveState'' \<mapsto> DStr ''inactive'',
             ''SubState'' \<mapsto> DStr ''dead'', ''UnitFileState'' \<mapsto> DStr ''enabled'']"

fun example_path :: "event \<Rightarrow> error + string" where
  "example_path (CallRemote p m [AStr n]) = Inr (''/unit/'' @ n)"
| "example_path e = Inl (RemoteError ''LoadUnit'')"

definition bus0 :: bus where
  "bus0 = \<lparr>reply = (\<lambda>h e. Inr (DInt (int (length h)))), reply_path = (\<lambda>h e. example_path e),
           reply_props = (\<lambda>h e. Inr props0)\<rparr>"

definition app0 :: App where
  "app0 = \<lparr>units = Map.empty,
           units_name = [(''web'', ''nginx.service''), (''db'', ''postgresql.service'')],
           units_path = [], properties = Map.empty, wamp_session = None,
           cells = [], handlers = [], trace = []\<rparr>"

definition app1 :: App where
  "app1 = \<lparr>units = Map.empty,
           units_name = [(''web'', ''nginx.service''), (''db'', ''postgresql.service'')],
           units_path = [(''web'', ''/unit/nginx.service''), (''db'', ''/unit/postgresql.service'')],
           properties = [''web'' \<mapsto> props0, ''db'' \<mapsto> props0], wamp_session = Some 1,
           cells = [], handlers = [], trace = []\<rparr>"

definition delta0 :: props where
  "delta0 = [''ActiveState'' \<mapsto> DStr ''active'']"

section \<open>Routing of change signals\<close>

text \<open>
  C1. The claim: the callback subscribed for the unit object of key \<open>k\<close> merges the
  delta into the properties stored under \<open>k\<close> and notifies for \<open>k\<close>. The code does
  not do this when more than one unit is tracked. With the two units of \<open>app1\<close>, both
  handlers share the one cell of \<^verbatim>\<open>unit_key\<close>, which holds \<^verbatim>\<open>db\<close> once the loop
  has ended; a signal of the object of \<^verbatim>\<open>web\<close> leaves the properties of \<^verbatim>\<open>web\<close> as
  they were, merges the delta into those of \<^verbatim>\<open>db\<close> and publishes on
  \<^verbatim>\<open>sjw.unit.db\<close>.
\<close>

theorem subscribe_routes_to_last_key:
  "fst (subscribe_props_units bus0 app1) = Inr () \<and>
   handlers (snd (subscribe_props_units bus0 app1))
     = [(''/unit/nginx.service'', 0), (''/unit/postgresql.service'', 0)] \<and>
   cells (snd (subscribe_props_units bus0 app1)) = [Some ''db''] \<and>
   properties (properties_changed (snd (subscribe_props_units bus0 app1))
       ''/unit/nginx.service'' ''org.freedesktop.systemd1.Unit'' delta0 []) ''web'' = Some props0 \<and>
   properties (properties_changed (snd (subscribe_props_units bus0 app1))
       ''/unit/nginx.service'' ''org.freedesktop.systemd1.Unit'' delta0 []) ''db''
     = Some (props0 ++ delta0) \<and>
   trace (properties_changed (snd (subscribe_props_units bus0 app1))
       ''/unit/nginx.service'' ''org.freedesktop.systemd1.Unit'' delta0 [])
     = trace (snd (subscribe_props_units bus0 app1)) @ [Publish ''sjw.unit.db'' delta0]"
  by (simp add: subscribe_props_units_def app1_def bus0_def getRemoteObject_def
        properties_changed_def call_handler_def unit_changed_def on_unit_changed_def)

section \<open>Gating of publications\<close>

text \<open>
  C2. For every key \<open>k\<close> and delta \<open>d\<close>: without a session \<open>on_unit_changed\<close>
  changes nothing (no publication, no exception: the function has no failing branch);
  with a session it adds exactly one event, the publication of \<open>d\<close> on the topic
  \<^verbatim>\<open>sjw.unit.\<close> followed by \<open>k\<close>, and changes nothing else.
\<close>

theorem on_unit_changed_gating:
  "(wamp_session s = None \<longrightarrow> on_unit_changed s k d = s) \<and>
   (\<forall>session. wamp_session s = Some session \<longrightarrow>
      on_unit_changed s k d = s\<lparr>trace := trace s @ [Publish (''sjw.unit.'' @ k) d]\<rparr>)"
  by (simp add: on_unit_changed_def)

theorem on_unit_changed_gating_witness:
  "wamp_session app0 = None \<and> on_unit_changed app0 ''web'' delta0 = app0 \<and>
   wamp_session (snd (initialize bus0 app0 7)) = Some 7 \<and>
   trace (on_unit_changed (snd (initialize bus0 app0 7)) ''web'' delta0)
     = trace (snd (initialize bus0 app0 7)) @ [Publish ''sjw.unit.web'' delta0] \<and>
   wamp_session (uninitialize (snd (initialize bus0 app0 7))) = None \<and>
   trace (on_unit_changed (uninitialize (snd (initialize bus0 app0 7))) ''web'' delta0)
     = trace (snd (initialize bus0 app0 7))"
  using on_unit_changed_gating [of app0 "''web''" delta0]
        on_unit_changed_gating [of "snd (initialize bus0 app0 7)" "''web''" delta0]
        on_unit_changed_gating [of "uninitialize (snd (initialize bus0 app0 7))" "''web''" delta0]
  by (simp add: app0_def bus0_def initialize_def uninitialize_def)

section \<open>Querying a key that is not tracked\<close>

text \<open>
  C3. The claim: \<^verbatim>\<open>query\<close> of a key that is not tracked returns a mapping without
  the key. The code raises instead: \<^verbatim>\<open>refresh_unit_properties\<close> subscripts
  \<^verbatim>\<open>units_path\<close> with the key before the filter of line 184 is reached. In \<open>app1\<close>
  the key \<^verbatim>\<open>nonexistent-key\<close> has no path, and the call ends with \<^verbatim>\<open>KeyError\<close>
  without any bus call.
\<close>

theorem query_unknown_key_raises:
  "map_of (units_path app1) ''nonexistent-key'' = None \<and>
   query bus0 app1 [''nonexistent-key''] = (Inl (KeyError ''nonexistent-key''), app1)"
  by (simp add: query_def refresh_unit_properties_def app1_def)

section \<open>Change signals and stored properties\<close>

text \<open>
  The body of the callback has no failing branch for a key without stored properties:
  \<^verbatim>\<open>setdefault\<close> creates the entry, which then holds the delta.
\<close>

lemma unit_changed_setdefault:
  "properties s k = None \<Longrightarrow> properties (unit_changed k s i d iv) k = Some d"
  by (simp add: unit_changed_def on_unit_changed_def split: option.splits)

text \<open>
  No run of startup reaches that branch. The callbacks are registered by
  \<^verbatim>\<open>subscribe_props_units\<close>, which \<open>main_loop\<close> runs only after
  \<^verbatim>\<open>refresh_unit_properties\<close> has returned, and that has stored properties for every
  key of \<open>units_path\<close>; the cell of a registered callback holds one of these keys, and
  nothing in the code removes an entry of \<open>properties\<close>. The lemmas below follow the
  three loops and then \<open>main_loop\<close>, from a state without callbacks (as the
  constructor leaves it) to whatever state the run ends in, with or without an
  exception.
\<close>

lemma refresh_unit_properties_loop_stored:
  "refresh_unit_properties_loop b ks s = (r, s') \<Longrightarrow>
   handlers s' = handlers s \<and> cells s' = cells s \<and> units_path s' = units_path s \<and>
   (\<forall>k. properties s k \<noteq> None \<longrightarrow> properties s' k \<noteq> None) \<and>
   (r = Inr () \<longrightarrow> (\<forall>k\<in>set ks. properties s' k \<noteq> None))"
proof (induction ks arbitrary: s)
  case Nil
  then show ?case by simp
next
  case (Cons k ks)
  from Cons.prems Cons.IH show ?case
    by (fastforce simp: getRemoteObject_def callRemote_props_def
          split: option.splits sum.splits prod.splits)
qed

lemma refresh_units_loop_handlers:
  "refresh_units_loop b fk items s = (r, s') \<Longrightarrow>
   handlers s' = handlers s \<and> cells s' = cells s"
proof (induction items arbitrary: s)
  case Nil
  then show ?case by simp
next
  case (Cons item items)
  obtain key unit_name where item: "item = (key, unit_name)" by (cases item)
  from Cons.prems Cons.IH show ?case
    unfolding item
    by (fastforce simp: callRemote_path_def getRemoteObject_def callRemote_props_def Let_def
          split: if_splits sum.splits prod.splits)
qed

lemma subscribe_props_units_loop_cell:
  "subscribe_props_units_loop b c items s = (r, s') \<Longrightarrow> c < length (cells s) \<Longrightarrow>
   properties s' = properties s \<and> length (cells s') = length (cells s) \<and>
   (\<forall>h\<in>set (handlers s'). h \<in> set (handlers s) \<or> snd h = c) \<and>
   (cells s' ! c = cells s ! c \<and> handlers s' = handlers s \<or>
    (\<exists>k\<in>fst ` set items. cells s' ! c = Some k))"
proof (induction items arbitrary: s)
  case Nil
  then show ?case by simp
next
  case (Cons item items)
  obtain unit_key unit_path where item: "item = (unit_key, unit_path)" by (cases item)
  let ?s1 = "s\<lparr>cells := (cells s)[c := Some unit_key]\<rparr>"
  obtain r2 s2 where g: "getRemoteObject b ?s1 unit_path = (r2, s2)"
    by (cases "getRemoteObject b ?s1 unit_path")
  then have s2: "s2 = ?s1\<lparr>trace := trace ?s1 @ [GetRemoteObject unit_path]\<rparr>"
    by (auto simp: getRemoteObject_def)
  show ?case
  proof (cases r2)
    case (Inl e)
    with Cons.prems g have "s' = s2" unfolding item by (simp add: Let_def)
    with s2 Cons.prems(2) show ?thesis unfolding item by simp
  next
    case (Inr x)
    let ?s3 = "s2\<lparr>handlers := handlers s2 @ [(unit_path, c)],
                   trace := trace s2 @ [NotifyOnSignal unit_path ''PropertiesChanged'']\<rparr>"
    from Inr Cons.prems g have rest: "subscribe_props_units_loop b c items ?s3 = (r, s')"
      unfolding item by (simp add: Let_def)
    have len: "c < length (cells ?s3)" using s2 Cons.prems(2) by simp
    from Cons.IH [OF rest len] s2 Cons.prems(2) show ?thesis
      unfolding item by auto
  qed
qed

lemma subscribe_props_units_cell:
  assumes run: "subscribe_props_units b s = (r, s')" and none: "handlers s = []"
    and h: "(p, c) \<in> set (handlers s')"
  shows "properties s' = properties s \<and> c < length (cells s') \<and>
         (\<exists>k\<in>fst ` set (units_path s). cells s' ! c = Some k)"
proof -
  let ?s0 = "s\<lparr>cells := cells s @ [None]\<rparr>"
  let ?c = "length (cells s)"
  have loop: "subscribe_props_units_loop b ?c (units_path ?s0) ?s0 = (r, s')"
    using run by (simp add: subscribe_props_units_def)
  have "?c < length (cells ?s0)" by simp
  from subscribe_props_units_loop_cell [OF loop this]
  have pr: "properties s' = properties ?s0"
    and ln: "length (cells s') = length (cells ?s0)"
    and hs: "\<forall>h\<in>set (handlers s'). h \<in> set (handlers ?s0) \<or> snd h = ?c"
    and cl: "cells s' ! ?c = cells ?s0 ! ?c \<and> handlers s' = handlers ?s0 \<or>
             (\<exists>k\<in>fst ` set (units_path ?s0). cells s' ! ?c = Some k)"
    by blast+
  from hs h none have c: "c = ?c" by fastforce
  from h none have "handlers s' \<noteq> handlers ?s0" by auto
  with cl have "\<exists>k\<in>fst ` set (units_path ?s0). cells s' ! ?c = Some k" by blast
  with pr ln c show ?thesis by simp
qed

lemma main_loop_callbacks_have_properties:
  assumes none: "handlers s = []" and h: "(p, c) \<in> set (handlers (snd (main_loop b s)))"
  shows "c < length (cells (snd (main_loop b s))) \<and>
         (\<exists>k. cells (snd (main_loop b s)) ! c = Some k \<and>
              properties (snd (main_loop b s)) k \<noteq> None)"
proof -
  obtain r1 s1 where c1: "connect b s = (r1, s1)" by (cases "connect b s")
  obtain r2 s2 where c2: "getRemoteObject b s1 systemd1 = (r2, s2)"
    by (cases "getRemoteObject b s1 systemd1")
  obtain r3 s3 where c3: "callRemote b s2 systemd1 ''Subscribe'' [] = (r3, s3)"
    by (cases "callRemote b s2 systemd1 ''Subscribe'' []")
  obtain r4 s4 where c4: "refresh_units b s3 None = (r4, s4)"
    by (cases "refresh_units b s3 None")
  obtain r5 s5 where c5: "refresh_unit_properties b s4 [] = (r5, s5)"
    by (cases "refresh_unit_properties b s4 []")
  obtain r6 s6 where c6: "subscribe_props_units b s5 = (r6, s6)"
    by (cases "subscribe_props_units b s5")
  obtain r7 s7 where c7: "wamp_start b s6 = (r7, s7)" by (cases "wamp_start b s6")
  have h1: "handlers s1 = []" using c1 none by (auto simp: connect_def)
  have h2: "handlers s2 = []" using c2 h1 by (auto simp: getRemoteObject_def)
  have h3: "handlers s3 = []" using c3 h2 by (auto simp: callRemote_def)
  have h4: "handlers s4 = []"
    using refresh_units_loop_handlers [of b None "units_name s3" s3 r4 s4] c4 h3
    by (simp add: refresh_units_def)
  have l5: "refresh_unit_properties_loop b (map fst (units_path s4)) s4 = (r5, s5)"
    using c5 by (simp add: refresh_unit_properties_def)
  note p5 = refresh_unit_properties_loop_stored [OF l5]
  have h5: "handlers s5 = []" using p5 h4 by simp
  have e7: "handlers s7 = handlers s6" "cells s7 = cells s6" "properties s7 = properties s6"
    using c7 by (auto simp: wamp_start_def)
  have g6: "c < length (cells s6) \<and> (\<exists>k. cells s6 ! c = Some k \<and> properties s6 k \<noteq> None)"
    if ok: "r5 = Inr ()" and m: "(p, c) \<in> set (handlers s6)"
  proof -
    from subscribe_props_units_cell [OF c6 h5 m] obtain k where
      pr: "properties s6 = properties s5" and ln: "c < length (cells s6)" and
      k: "k \<in> fst ` set (units_path s5)" "cells s6 ! c = Some k"
      by blast
    from p5 k(1) have "k \<in> set (map fst (units_path s4))" by simp
    with p5 ok have "properties s5 k \<noteq> None" by blast
    with pr ln k(2) show ?thesis by simp
  qed
  show ?thesis
  proof (cases r1)
    case (Inl e)
    then have "snd (main_loop b s) = s1" using c1 by (simp add: main_loop_def)
    with h h1 show ?thesis by simp
  next
    case a1: (Inr x1)
    show ?thesis
    proof (cases r2)
      case (Inl e)
      then have "snd (main_loop b s) = s2" using c1 c2 a1 by (simp add: main_loop_def)
      with h h2 show ?thesis by simp
    next
      case a2: (Inr x2)
      show ?thesis
      proof (cases r3)
        case (Inl e)
        then have "snd (main_loop b s) = s3" using c1 c2 c3 a1 a2 by (simp add: main_loop_def)
        with h h3 show ?thesis by simp
      next
        case a3: (Inr x3)
        show ?thesis
        proof (cases r4)
          case (Inl e)
          then have "snd (main_loop b s) = s4"
            using c1 c2 c3 c4 a1 a2 a3 by (simp add: main_loop_def)
          with h h4 show ?thesis by simp
        next
          case a4: (Inr x4)
          show ?thesis
          proof (cases r5)
            case (Inl e)
            then have "snd (main_loop b s) = s5"
              using c1 c2 c3 c4 c5 a1 a2 a3 a4 by (simp add: main_loop_def)
            with h h5 show ?thesis by simp
          next
            case a5: (Inr x5)
            then have ok: "r5 = Inr ()" by simp
            show ?thesis
            proof (cases r6)
              case (Inl e)
              then have "snd (main_loop b s) = s6"
                using c1 c2 c3 c4 c5 c6 a1 a2 a3 a4 a5 by (simp add: main_loop_def)
              with h g6 [OF ok] show ?thesis by simp
            next
              case a6: (Inr x6)
              have "snd (main_loop b s) = s7"
                using c1 c2 c3 c4 c5 c6 c7 a1 a2 a3 a4 a5 a6
                by (cases r7) (simp_all add: main_loop_def)
              with h g6 [OF ok] e7 show ?thesis by simp
            qed
          qed
        qed
      qed
    qed
  qed
qed

section \<open>Starting and stopping\<close>

text \<open>
  C5. If \<open>k\<close> is not a key of \<open>units_name\<close>, \<open>start\<close> and \<open>stop\<close> raise
  \<^verbatim>\<open>KeyError\<close> and leave the state, and with it the trace, as it was: no bus call.
  If \<open>units_name\<close> maps \<open>k\<close> to \<open>n\<close>, they issue exactly one call, \<^verbatim>\<open>StartUnit\<close>
  or \<^verbatim>\<open>StopUnit\<close> of \<open>n\<close> with mode \<^verbatim>\<open>replace\<close>, and their result is the answer of
  the bus to that call, value or exception, as it is.
\<close>

theorem start_stop_resolve:
  "(map_of (units_name s) k = None \<longrightarrow>
      start b s k = (Inl (KeyError k), s) \<and> stop b s k = (Inl (KeyError k), s)) \<and>
   (\<forall>n. map_of (units_name s) k = Some n \<longrightarrow>
      start b s k =
        (reply b (trace s) (CallRemote systemd1 ''StartUnit'' [AStr n, AStr ''replace'']),
         s\<lparr>trace := trace s @ [CallRemote systemd1 ''StartUnit'' [AStr n, AStr ''replace'']]\<rparr>) \<and>
      stop b s k =
        (reply b (trace s) (CallRemote systemd1 ''StopUnit'' [AStr n, AStr ''replace'']),
         s\<lparr>trace := trace s @ [CallRemote systemd1 ''StopUnit'' [AStr n, AStr ''replace'']]\<rparr>))"
  by (simp add: start_def stop_def callRemote_def)

theorem start_stop_resolve_witness:
  "map_of (units_name app0) ''missing'' = None \<and>
   start bus0 app0 ''missing'' = (Inl (KeyError ''missing''), app0) \<and>
   stop bus0 app0 ''missing'' = (Inl (KeyError ''missing''), app0) \<and>
   map_of (units_name app0) ''web'' = Some ''nginx.service'' \<and>
   fst (start bus0 app0 ''web'') = Inr (DInt 0) \<and>
   trace (snd (start bus0 app0 ''web''))
     = [CallRemote systemd1 ''StartUnit'' [AStr ''nginx.service'', AStr ''replace'']] \<and>
   fst (stop bus0 app0 ''web'') = Inr (DInt 0) \<and>
   trace (snd (stop bus0 app0 ''web''))
     = [CallRemote systemd1 ''StopUnit'' [AStr ''nginx.service'', AStr ''replace'']]"
  using start_stop_resolve [of app0 "''missing''" bus0]
        start_stop_resolve [of app0 "''web''" bus0]
  by (simp add: app0_def bus0_def)

section \<open>Enabling and disabling\<close>

text \<open>
  C6. For a key \<open>k\<close> that \<open>units_name\<close> maps to \<open>n\<close>: whenever \<open>enable\<close> returns
  a value, that value is the answer of the bus to the \<^verbatim>\<open>EnableUnitFiles\<close> call for
  \<open>[n]\<close>, and the calls issued are that call followed by \<^verbatim>\<open>Reload\<close>; and whatever
  value the enablement call answers, the \<^verbatim>\<open>Reload\<close> call follows it. The same holds
  of \<open>disable\<close> with \<^verbatim>\<open>DisableUnitFiles\<close>. (An exception of the enablement call
  itself ends the operation there: it does not return.)
\<close>

theorem enable_disable_reload:
  "map_of (units_name s) k = Some n \<Longrightarrow>
   (\<forall>r s'. enable b s k = (Inr r, s') \<longrightarrow>
      reply b (trace s)
        (CallRemote systemd1 ''EnableUnitFiles'' [AStrs [n], ABool False, ABool True]) = Inr r \<and>
      trace s' = trace s @
        [CallRemote systemd1 ''EnableUnitFiles'' [AStrs [n], ABool False, ABool True],
         CallRemote systemd1 ''Reload'' []]) \<and>
   (\<forall>r. reply b (trace s)
        (CallRemote systemd1 ''EnableUnitFiles'' [AStrs [n], ABool False, ABool True]) = Inr r \<longrightarrow>
      trace (snd (enable b s k)) = trace s @
        [CallRemote systemd1 ''EnableUnitFiles'' [AStrs [n], ABool False, ABool True],
         CallRemote systemd1 ''Reload'' []]) \<and>
   (\<forall>r s'. disable b s k = (Inr r, s') \<longrightarrow>
      reply b (trace s)
        (CallRemote systemd1 ''DisableUnitFiles'' [AStrs [n], ABool False]) = Inr r \<and>
      trace s' = trace s @
        [CallRemote systemd1 ''DisableUnitFiles'' [AStrs [n], ABool False],
         CallRemote systemd1 ''Reload'' []]) \<and>
   (\<forall>r. reply b (trace s)
        (CallRemote systemd1 ''DisableUnitFiles'' [AStrs [n], ABool False]) = Inr r \<longrightarrow>
      trace (snd (disable b s k)) = trace s @
        [CallRemote systemd1 ''DisableUnitFiles'' [AStrs [n], ABool False],
         CallRemote systemd1 ''Reload'' []])"
  by (auto simp: enable_def disable_def callRemote_def split: sum.splits)

theorem enable_disable_reload_witness:
  "map_of (units_name app0) ''web'' = Some ''nginx.service'' \<and>
   fst (enable bus0 app0 ''web'') = Inr (DInt 0) \<and>
   trace (snd (enable bus0 app0 ''web''))
     = [CallRemote systemd1 ''EnableUnitFiles'' [AStrs [''nginx.service''], ABool False, ABool True],
        CallRemote systemd1 ''Reload'' []] \<and>
   fst (disable bus0 app0 ''web'') = Inr (DInt 0) \<and>
   trace (snd (disable bus0 app0 ''web''))
     = [CallRemote systemd1 ''DisableUnitFiles'' [AStrs [''nginx.service''], ABool False],
        CallRemote systemd1 ''Reload'' []]"
  using enable_disable_reload [of app0 "''web''" "''nginx.service''" bus0]
  by (simp add: app0_def bus0_def enable_def disable_def callRemote_def)

section \<open>Population stores the catalog's names\<close>

lemma make_Unit_name: "make_Unit n p = Inr u \<Longrightarrow> name u = n"
  by (auto simp: make_Unit_def split: sum.splits)

lemma refresh_units_loop_units_other:
  "refresh_units_loop b fk items s = (r, s') \<Longrightarrow> k \<notin> fst ` set items \<Longrightarrow> units s' k = units s k"
proof (induction items arbitrary: s)
  case Nil
  then show ?case by simp
next
  case (Cons item items)
  obtain key unit_name where item: "item = (key, unit_name)" by (cases item)
  from Cons.prems Cons.IH show ?case
    unfolding item
    by (fastforce simp: callRemote_path_def getRemoteObject_def callRemote_props_def Let_def
          split: if_splits sum.splits prod.splits)
qed

lemma refresh_units_loop_Cons_ok:
  "refresh_units_loop b fk ((key, unit_name) # rest) s = (Inr (), s') \<Longrightarrow> falsy fk \<Longrightarrow>
   \<exists>s5. refresh_units_loop b fk rest s5 = (Inr (), s') \<and>
        (\<exists>u. units s5 key = Some u \<and> name u = unit_name)"
  by (fastforce simp: callRemote_path_def getRemoteObject_def callRemote_props_def Let_def
        make_Unit_name split: if_splits sum.splits prod.splits)

lemma refresh_units_loop_name:
  "refresh_units_loop b fk items s = (Inr (), s') \<Longrightarrow> falsy fk \<Longrightarrow> distinct (map fst items) \<Longrightarrow>
   (k, n) \<in> set items \<Longrightarrow> \<exists>u. units s' k = Some u \<and> name u = n"
proof (induction items arbitrary: s)
  case Nil
  then show ?case by simp
next
  case (Cons item items)
  obtain key unit_name where item: "item = (key, unit_name)" by (cases item)
  from refresh_units_loop_Cons_ok [OF Cons.prems(1) [unfolded item] Cons.prems(2)]
  obtain s5 u where
    rest: "refresh_units_loop b fk items s5 = (Inr (), s')" and
    u: "units s5 key = Some u" "name u = unit_name"
    by blast
  show ?case
  proof (cases "(k, n) \<in> set items")
    case True
    with Cons.IH [OF rest] Cons.prems show ?thesis by simp
  next
    case False
    with Cons.prems(4) item have kn: "k = key" "n = unit_name" by auto
    from Cons.prems(3) item have "key \<notin> fst ` set items" by simp
    from refresh_units_loop_units_other [OF rest this] u kn show ?thesis
      by simp
  qed
qed

text \<open>
  C7. \<open>units_name\<close> is a Python dictionary, so its keys are distinct. If
  \<^verbatim>\<open>refresh_units()\<close> (all units, no filter) returns without an exception, then for
  every key \<open>k\<close> that \<open>units_name\<close> maps to \<open>n\<close> a \<open>Unit\<close> is stored under \<open>k\<close>
  and its \<open>name\<close> is \<open>n\<close>.
\<close>

theorem populate_name:
  "distinct (map fst (units_name s)) \<Longrightarrow> refresh_units b s None = (Inr (), s') \<Longrightarrow>
   map_of (units_name s) k = Some n \<Longrightarrow> \<exists>u. units s' k = Some u \<and> name u = n"
  using refresh_units_loop_name [of b None "units_name s" s s' k n]
  by (auto simp: refresh_units_def falsy_def dest: map_of_SomeD)

lemma refresh_units_bus0: "fst (refresh_units bus0 app0 None) = Inr ()"
  by (simp add: refresh_units_def app0_def bus0_def falsy_def callRemote_path_def
        getRemoteObject_def callRemote_props_def make_Unit_def getitem_def props0_def systemd1_def)

theorem populate_name_witness:
  "distinct (map fst (units_name app0)) \<and> fst (refresh_units bus0 app0 None) = Inr () \<and>
   map_of (units_name app0) ''web'' = Some ''nginx.service'' \<and>
   (\<exists>u. units (snd (refresh_units bus0 app0 None)) ''web'' = Some u \<and> name u = ''nginx.service'')"
proof -
  have d: "distinct (map fst (units_name app0))" by (simp add: app0_def)
  have m: "map_of (units_name app0) ''web'' = Some ''nginx.service''" by (simp add: app0_def)
  have r: "refresh_units bus0 app0 None = (Inr (), snd (refresh_units bus0 app0 None))"
    using refresh_units_bus0 by (metis prod.collapse)
  from populate_name [OF d r m] d m refresh_units_bus0 show ?thesis by simp
qed

section \<open>Merging a delta\<close>

text \<open>
  C8. For every key \<open>k\<close> with stored properties \<open>m\<close> and every delta \<open>d\<close> (a
  single property or more): after the callback has run for \<open>k\<close>, the properties
  stored under \<open>k\<close> give, for each property name, the value of \<open>d\<close> where \<open>d\<close> has
  one and the value of \<open>m\<close> otherwise; the properties of every other key and the
  \<open>units\<close> are unchanged.
\<close>

theorem unit_changed_merge:
  "properties s k = Some m \<Longrightarrow>
   (\<exists>m'. properties (unit_changed k s i d iv) k = Some m' \<and>
         (\<forall>p. m' p = (case d p of None \<Rightarrow> m p | Some v \<Rightarrow> Some v))) \<and>
   (\<forall>k'. k' \<noteq> k \<longrightarrow> properties (unit_changed k s i d iv) k' = properties s k') \<and>
   units (unit_changed k s i d iv) = units s"
  by (simp add: unit_changed_def on_unit_changed_def map_add_def split: option.splits)

theorem unit_changed_merge_witness:
  "properties app1 ''web'' = Some props0 \<and>
   (\<exists>m'. properties (unit_changed ''web'' app1 ''org.freedesktop.systemd1.Unit'' delta0 []) ''web''
            = Some m' \<and>
         m' ''ActiveState'' = Some (DStr ''active'') \<and> m' ''SubState'' = Some (DStr ''dead'') \<and>
         m' ''Description'' = Some (DStr ''A web server'') \<and> m' ''Id'' = None) \<and>
   properties (unit_changed ''web'' app1 ''org.freedesktop.systemd1.Unit'' delta0 []) ''db''
     = Some props0"
  using unit_changed_merge [of app1 "''web''" props0 "''org.freedesktop.systemd1.Unit''" delta0 "[]"]
  by (auto simp: app1_def props0_def delta0_def)

section \<open>The order of startup\<close>

lemma phases_append: "phases (xs @ ys) = phases xs @ phases ys"
  by (simp add: phases_def map_filter_def)

lemma phases_Cons: "phases (e # ev) = (case phase e of None \<Rightarrow> phases ev | Some n \<Rightarrow> n # phases ev)"
  by (simp add: phases_def map_filter_def split: option.splits)

lemma phases_Nil: "phases [] = []"
  by (simp add: phases_def map_filter_def)

lemma phases_only:
  "\<forall>e\<in>set ev. phase e = None \<or> phase e = Some n \<Longrightarrow> x \<in> set (phases ev) \<Longrightarrow> x = n"
  by (auto simp: phases_def map_filter_def)

lemma phases_only_sorted:
  "\<forall>e\<in>set ev. phase e = None \<or> phase e = Some n \<Longrightarrow> sorted (phases ev)"
  by (induction ev) (auto simp: phases_Cons phases_Nil dest: phases_only split: option.splits)

lemma refresh_units_loop_trace:
  "refresh_units_loop b fk items s = (r, s') \<Longrightarrow>
   \<exists>ev. trace s' = trace s @ ev \<and> (\<forall>e\<in>set ev. phase e = None \<or> phase e = Some 2) \<and>
        (r = Inr () \<longrightarrow> falsy fk \<longrightarrow>
           (\<forall>(k, n)\<in>set items. CallRemote systemd1 ''LoadUnit'' [AStr n] \<in> set ev))"
proof (induction items arbitrary: s)
  case Nil
  then show ?case by simp
next
  case (Cons item items)
  obtain key unit_name where item: "item = (key, unit_name)" by (cases item)
  from Cons.prems Cons.IH show ?case
    unfolding item
    by (fastforce simp: callRemote_path_def getRemoteObject_def callRemote_props_def Let_def
          split: if_splits sum.splits prod.splits)
qed

lemma refresh_unit_properties_loop_trace:
  "refresh_unit_properties_loop b ks s = (r, s') \<Longrightarrow>
   \<exists>ev. trace s' = trace s @ ev \<and> (\<forall>e\<in>set ev. phase e = None \<or> phase e = Some 2) \<and>
        units_path s' = units_path s"
proof (induction ks arbitrary: s)
  case Nil
  then show ?case by simp
next
  case (Cons k ks)
  from Cons.prems Cons.IH show ?case
    by (fastforce simp: getRemoteObject_def callRemote_props_def
          split: option.splits sum.splits prod.splits)
qed

lemma subscribe_props_units_loop_trace:
  "subscribe_props_units_loop b c items s = (r, s') \<Longrightarrow>
   \<exists>ev. trace s' = trace s @ ev \<and> (\<forall>e\<in>set ev. phase e = None \<or> phase e = Some 3) \<and>
        units_path s' = units_path s \<and>
        (r = Inr () \<longrightarrow>
           (\<forall>(k, p)\<in>set items. NotifyOnSignal p ''PropertiesChanged'' \<in> set ev))"
proof (induction items arbitrary: s)
  case Nil
  then show ?case by simp
next
  case (Cons item items)
  obtain unit_key unit_path where item: "item = (unit_key, unit_path)" by (cases item)
  from Cons.prems Cons.IH show ?case
    unfolding item
    by (fastforce simp: getRemoteObject_def Let_def split: sum.splits prod.splits)
qed

lemma refresh_units_trace:
  "refresh_units b s None = (r, s') \<Longrightarrow>
   \<exists>ev. trace s' = trace s @ ev \<and> (\<forall>e\<in>set ev. phase e = None \<or> phase e = Some 2) \<and>
        (r = Inr () \<longrightarrow>
           (\<forall>(k, n)\<in>set (units_name s). CallRemote systemd1 ''LoadUnit'' [AStr n] \<in> set ev))"
  using refresh_units_loop_trace [of b None "units_name s" s r s']
  by (simp add: refresh_units_def falsy_def)

lemma refresh_unit_properties_trace:
  "refresh_unit_properties b s ks = (r, s') \<Longrightarrow>
   \<exists>ev. trace s' = trace s @ ev \<and> (\<forall>e\<in>set ev. phase e = None \<or> phase e = Some 2) \<and>
        units_path s' = units_path s"
  unfolding refresh_unit_properties_def by (rule refresh_unit_properties_loop_trace)

lemma subscribe_props_units_trace:
  "subscribe_props_units b s = (r, s') \<Longrightarrow>
   \<exists>ev. trace s' = trace s @ ev \<and> (\<forall>e\<in>set ev. phase e = None \<or> phase e = Some 3) \<and>
        units_path s' = units_path s \<and>
        (r = Inr () \<longrightarrow>
           (\<forall>(k, p)\<in>set (units_path s). NotifyOnSignal p ''PropertiesChanged'' \<in> set ev))"
  using subscribe_props_units_loop_trace
          [of b "length (cells s)" "units_path s" "s\<lparr>cells := cells s @ [None]\<rparr>" r s']
  by (simp add: subscribe_props_units_def)

text \<open>
  C9. In every run of \<open>main_loop\<close>, also one that an exception cuts short, the events
  added to the trace are in the order of their phases: the \<^verbatim>\<open>Subscribe\<close> call, made
  at most once, precedes every call of population; every call of population precedes
  every registration of a unit's change callback; every registration precedes the start
  of the WAMP component. A run that returns has made the \<^verbatim>\<open>Subscribe\<close> call, a
  \<^verbatim>\<open>LoadUnit\<close> call for every unit of the catalog and a registration for every path of
  \<open>units_path\<close>, and its last event is the start of the WAMP component. Every call is
  awaited, so it has its answer before the next event; a registration is the call of
  \<^verbatim>\<open>notifyOnSignal\<close>, whose result the code does not await.
\<close>

theorem startup_order:
  "\<exists>ev. trace (snd (main_loop b s)) = trace s @ ev \<and>
        sorted (phases ev) \<and>
        length (filter (\<lambda>e. phase e = Some 1) ev) \<le> 1 \<and>
        (fst (main_loop b s) = Inr () \<longrightarrow>
           CallRemote systemd1 ''Subscribe'' [] \<in> set ev \<and>
           (\<forall>(k, n)\<in>set (units_name s). CallRemote systemd1 ''LoadUnit'' [AStr n] \<in> set ev) \<and>
           (\<forall>(k, p)\<in>set (units_path (snd (main_loop b s))).
               NotifyOnSignal p ''PropertiesChanged'' \<in> set ev) \<and>
           last ev = WampStart)"
proof -
  obtain r1 s1 where c1: "connect b s = (r1, s1)" by (cases "connect b s")
  obtain r2 s2 where c2: "getRemoteObject b s1 systemd1 = (r2, s2)"
    by (cases "getRemoteObject b s1 systemd1")
  obtain r3 s3 where c3: "callRemote b s2 systemd1 ''Subscribe'' [] = (r3, s3)"
    by (cases "callRemote b s2 systemd1 ''Subscribe'' []")
  obtain r4 s4 where c4: "refresh_units b s3 None = (r4, s4)"
    by (cases "refresh_units b s3 None")
  obtain r5 s5 where c5: "refresh_unit_properties b s4 [] = (r5, s5)"
    by (cases "refresh_unit_properties b s4 []")
  obtain r6 s6 where c6: "subscribe_props_units b s5 = (r6, s6)"
    by (cases "subscribe_props_units b s5")
  obtain r7 s7 where c7: "wamp_start b s6 = (r7, s7)" by (cases "wamp_start b s6")
  have t1: "trace s1 = trace s @ [Connect]" and n1: "units_name s1 = units_name s"
    using c1 by (auto simp: connect_def)
  have t2: "trace s2 = trace s1 @ [GetRemoteObject systemd1]" and n2: "units_name s2 = units_name s1"
    using c2 by (auto simp: getRemoteObject_def)
  have t3: "trace s3 = trace s2 @ [CallRemote systemd1 ''Subscribe'' []]"
    and n3: "units_name s3 = units_name s2"
    using c3 by (auto simp: callRemote_def)
  from refresh_units_trace [OF c4] obtain ev4 where
    t4: "trace s4 = trace s3 @ ev4" and p4: "\<forall>e\<in>set ev4. phase e = None \<or> phase e = Some 2" and
    l4: "r4 = Inr () \<longrightarrow>
           (\<forall>(k, n)\<in>set (units_name s3). CallRemote systemd1 ''LoadUnit'' [AStr n] \<in> set ev4)"
    by blast
  from refresh_unit_properties_trace [OF c5] obtain ev5 where
    t5: "trace s5 = trace s4 @ ev5" and p5: "\<forall>e\<in>set ev5. phase e = None \<or> phase e = Some 2"
    by blast
  from subscribe_props_units_trace [OF c6] obtain ev6 where
    t6: "trace s6 = trace s5 @ ev6" and p6: "\<forall>e\<in>set ev6. phase e = None \<or> phase e = Some 3" and
    u6: "units_path s6 = units_path s5" and
    l6: "r6 = Inr () \<longrightarrow>
           (\<forall>(k, p)\<in>set (units_path s5). NotifyOnSignal p ''PropertiesChanged'' \<in> set ev6)"
    by blast
  have t7: "trace s7 = trace s6 @ [WampStart]" and u7: "units_path s7 = units_path s6"
    using c7 by (auto simp: wamp_start_def)
  have f4: "filter (\<lambda>e. phase e = Some 1) ev4 = []" using p4 by (auto simp: filter_empty_conv)
  have f5: "filter (\<lambda>e. phase e = Some 1) ev5 = []" using p5 by (auto simp: filter_empty_conv)
  have f6: "filter (\<lambda>e. phase e = Some 1) ev6 = []" using p6 by (auto simp: filter_empty_conv)
  note so = phases_only_sorted [OF p4] phases_only_sorted [OF p5] phases_only_sorted [OF p6]
  have lo: "\<forall>x\<in>set (phases ev4). Suc 0 \<le> x" "\<forall>x\<in>set (phases ev5). Suc 0 \<le> x"
    "\<forall>x\<in>set (phases ev6). Suc 0 \<le> x"
    using phases_only [OF p4] phases_only [OF p5] phases_only [OF p6] by fastforce+
  have hi: "\<forall>x\<in>set (phases ev4). x \<le> 4" "\<forall>x\<in>set (phases ev5). x \<le> 4"
    "\<forall>x\<in>set (phases ev6). x \<le> 4"
    using phases_only [OF p4] phases_only [OF p5] phases_only [OF p6] by fastforce+
  have le: "\<forall>x\<in>set (phases ev4). \<forall>y\<in>set (phases ev5). x \<le> y"
    "\<forall>x\<in>set (phases ev4). \<forall>y\<in>set (phases ev6). x \<le> y"
    "\<forall>x\<in>set (phases ev5). \<forall>y\<in>set (phases ev6). x \<le> y"
    using phases_only [OF p4] phases_only [OF p5] phases_only [OF p6] by fastforce+
  note on = lo hi le
  show ?thesis
  proof (cases r1)
    case (Inl e)
    then have "main_loop b s = (Inl e, s1)" using c1 by (simp add: main_loop_def)
    then show ?thesis using t1 by (simp add: phases_Cons phases_Nil)
  next
    case a1: (Inr x1)
    show ?thesis
    proof (cases r2)
      case (Inl e)
      then have "main_loop b s = (Inl e, s2)" using c1 c2 a1 by (simp add: main_loop_def)
      then show ?thesis using t1 t2 by (simp add: phases_Cons phases_Nil)
    next
      case a2: (Inr x2)
      show ?thesis
      proof (cases r3)
        case (Inl e)
        then have "main_loop b s = (Inl e, s3)" using c1 c2 c3 a1 a2 by (simp add: main_loop_def)
        then show ?thesis using t1 t2 t3 by (simp add: phases_Cons phases_Nil)
      next
        case a3: (Inr x3)
        show ?thesis
        proof (cases r4)
          case (Inl e)
          then have "main_loop b s = (Inl e, s4)"
            using c1 c2 c3 c4 a1 a2 a3 by (simp add: main_loop_def)
          then show ?thesis using t1 t2 t3 t4 so f4 on
            by (auto simp: phases_Cons phases_Nil phases_append)
        next
          case a4: (Inr x4)
          show ?thesis
          proof (cases r5)
            case (Inl e)
            then have "main_loop b s = (Inl e, s5)"
              using c1 c2 c3 c4 c5 a1 a2 a3 a4 by (simp add: main_loop_def)
            then show ?thesis using t1 t2 t3 t4 t5 so f4 f5 on
              by (auto simp: phases_Cons phases_Nil phases_append sorted_append)
          next
            case a5: (Inr x5)
            show ?thesis
            proof (cases r6)
              case (Inl e)
              then have "main_loop b s = (Inl e, s6)"
                using c1 c2 c3 c4 c5 c6 a1 a2 a3 a4 a5 by (simp add: main_loop_def)
              then show ?thesis using t1 t2 t3 t4 t5 t6 so f4 f5 f6 on
                by (auto simp: phases_Cons phases_Nil phases_append sorted_append)
            next
              case a6: (Inr x6)
              show ?thesis
              proof (cases r7)
                case (Inl e)
                then have "main_loop b s = (Inl e, s7)"
                  using c1 c2 c3 c4 c5 c6 c7 a1 a2 a3 a4 a5 a6 by (simp add: main_loop_def)
                then show ?thesis using t1 t2 t3 t4 t5 t6 t7 so f4 f5 f6 on
                  by (auto simp: phases_Cons phases_Nil phases_append sorted_append)
              next
                case a7: (Inr x7)
                then have "main_loop b s = (Inr (), s7)"
                  using c1 c2 c3 c4 c5 c6 c7 a1 a2 a3 a4 a5 a6 by (simp add: main_loop_def)
                then show ?thesis
                  using t1 t2 t3 t4 t5 t6 t7 so f4 f5 f6 on l4 l6 a4 a6 n1 n2 n3 u6 u7
                  by (auto simp: phases_Cons phases_Nil phases_append sorted_append)
              qed
            qed
          qed
        qed
      qed
    qed
  qed
qed

lemma main_loop_bus0:
  "fst (main_loop bus0 app0) = Inr () \<and>
   units_path (snd (main_loop bus0 app0))
     = [(''web'', ''/unit/nginx.service''), (''db'', ''/unit/postgresql.service'')] \<and>
   trace (snd (main_loop bus0 app0)) =
     [Connect, GetRemoteObject systemd1, CallRemote systemd1 ''Subscribe'' [],
      CallRemote systemd1 ''LoadUnit'' [AStr ''nginx.service''],
      GetRemoteObject ''/unit/nginx.service'',
      CallRemote ''/unit/nginx.service'' ''GetAll'' [AStr ''''],
      CallRemote systemd1 ''LoadUnit'' [AStr ''postgresql.service''],
      GetRemoteObject ''/unit/postgresql.service'',
      CallRemote ''/unit/postgresql.service'' ''GetAll'' [AStr ''''],
      GetRemoteObject ''/unit/nginx.service'',
      CallRemote ''/unit/nginx.service'' ''GetAll'' [AStr ''''],
      GetRemoteObject ''/unit/postgresql.service'',
      CallRemote ''/unit/postgresql.service'' ''GetAll'' [AStr ''''],
      GetRemoteObject ''/unit/nginx.service'',
      NotifyOnSignal ''/unit/nginx.service'' ''PropertiesChanged'',
      GetRemoteObject ''/unit/postgresql.service'',
      NotifyOnSignal ''/unit/postgresql.service'' ''PropertiesChanged'',
      WampStart]"
  by (simp add: main_loop_def connect_def wamp_start_def callRemote_def
        refresh_units_def refresh_unit_properties_def subscribe_props_units_def
        app0_def bus0_def falsy_def callRemote_path_def
        getRemoteObject_def callRemote_props_def make_Unit_def getitem_def props0_def)

theorem startup_order_witness:
  "fst (main_loop bus0 app0) = Inr () \<and>
   (\<exists>ev. trace (snd (main_loop bus0 app0)) = trace app0 @ ev \<and> sorted (phases ev) \<and>
         CallRemote systemd1 ''Subscribe'' [] \<in> set ev \<and>
         CallRemote systemd1 ''LoadUnit'' [AStr ''nginx.service''] \<in> set ev \<and>
         NotifyOnSignal ''/unit/postgresql.service'' ''PropertiesChanged'' \<in> set ev \<and>
         last ev = WampStart)"
  using startup_order [of bus0 app0] main_loop_bus0
  by (auto simp: app0_def)

section \<open>The lifecycle operations leave the mirror alone\<close>

text \<open>
  C10. For every key, in the catalog or not, and whatever the bus answers, \<open>start\<close>,
  \<open>stop\<close>, \<open>enable\<close> and \<open>disable\<close> leave \<open>units\<close>, \<open>properties\<close> and
  \<open>units_path\<close> as they were.
\<close>

theorem lifecycle_frame:
  "units (snd (start b s k)) = units s \<and> properties (snd (start b s k)) = properties s \<and>
   units_path (snd (start b s k)) = units_path s \<and>
   units (snd (stop b s k)) = units s \<and> properties (snd (stop b s k)) = properties s \<and>
   units_path (snd (stop b s k)) = units_path s \<and>
   units (snd (enable b s k)) = units s \<and> properties (snd (enable b s k)) = properties s \<and>
   units_path (snd (enable b s k)) = units_path s \<and>
   units (snd (disable b s k)) = units s \<and> properties (snd (disable b s k)) = properties s \<and>
   units_path (snd (disable b s k)) = units_path s"
  by (simp add: start_def stop_def enable_def disable_def callRemote_def
           split: option.splits sum.splits)

end
